theory Spec2Isabelle
  imports Main "HOL-Library.Multiset" "HOL-Library.Product_Lexorder"
begin

section \<open>Time-of-day values and the minute helpers of \<open>procesador/core.py\<close>\<close>

text \<open>
  Python's \<open>datetime.time\<close> as the program builds it: \<open>parse_time\<close> returns
  \<open>time(hour=h, minute=mi, second=0)\<close> and \<open>core.py\<close> itself only constructs
  \<open>time(dt.hour, dt.minute)\<close>, so a value is an hour and a minute. The constructor of
  Python raises outside \<open>0 \<le> hour < 24\<close>, \<open>0 \<le> minute < 60\<close>; \<open>valid_time\<close> is that range.
\<close>

datatype time = Time (hour: nat) (minute: nat)

definition valid_time :: "time \<Rightarrow> bool" where
  "valid_time t \<longleftrightarrow> hour t < 24 \<and> minute t < 60"

text \<open>
  \<open>datetime(2000, 1, 1, t.hour, t.minute)\<close> is represented by the number of minutes since
  2000-01-01 00:00 (every datetime of \<open>core.py\<close> has second 0). The same number is
  \<open>t.hour * 60 + t.minute\<close> of \<open>normalize_registro_times\<close>.
\<close>

definition mins :: "time \<Rightarrow> int" where
  "mins t = int (hour t) * 60 + int (minute t)"

text \<open>\<open>time(dt.hour, dt.minute)\<close> for a datetime given in minutes since 2000-01-01 00:00.\<close>

definition time_of_dt :: "int \<Rightarrow> time" where
  "time_of_dt dt = Time (nat ((dt mod 1440) div 60)) (nat (dt mod 60))"

text \<open>Python's \<open>a < b\<close> on \<open>time\<close> values: lexicographic on (hour, minute).\<close>

definition time_less :: "time \<Rightarrow> time \<Rightarrow> bool" where
  "time_less a b \<longleftrightarrow> hour a < hour b \<or> (hour a = hour b \<and> minute a < minute b)"

datatype error = OverflowError

text \<open>
  The datetimes Python can represent, in minutes since 2000-01-01 00:00:
  from 0001-01-01 00:00 to 9999-12-31 23:59. \<open>datetime + timedelta\<close> raises
  \<open>OverflowError\<close> outside.
\<close>

definition dt_min :: int where "dt_min = - 1051371360"
definition dt_max :: int where "dt_max = 4207593599"

text \<open>\<open>add_minutes\<close>, lines 19-23.\<close>

definition add_minutes :: "time option \<Rightarrow> int \<Rightarrow> error + time option" where
  "add_minutes t minutes =
     (case t of
        None \<Rightarrow> Inr None
      | Some t' \<Rightarrow>
          (let dt = mins t' + minutes
           in if dt < dt_min \<or> dt_max < dt then Inl OverflowError
              else Inr (Some (time_of_dt dt))))"

text \<open>\<open>round_minutes\<close>, lines 25-43. Any mode other than "up" and "down" rounds to nearest.\<close>

definition round_minutes :: "int \<Rightarrow> int \<Rightarrow> string \<Rightarrow> int" where
  "round_minutes value_min step mode =
     (if step \<le> 1 then max 0 value_min
      else
        (let v = max 0 value_min
         in if mode = ''up'' then ((v + step - 1) div step) * step
            else if mode = ''down'' then (v div step) * step
            else
              (let lo = (v div step) * step;
                   hi = lo + step
               in if (v - lo) \<ge> (hi - v) then hi else lo)))"

text \<open>\<open>minutos_entre\<close>, lines 44-52.\<close>

definition minutos_entre :: "time option \<Rightarrow> time option \<Rightarrow> int" where
  "minutos_entre t1 t2 =
     (case (t1, t2) of
        (Some a, Some b) \<Rightarrow>
          (let dt1 = mins a;
               dt2 = mins b;
               dt2' = (if dt2 < dt1 then dt2 + 1440 else dt2)
           in dt2' - dt1)
      | _ \<Rightarrow> 0)"

section \<open>Punch normalizer\<close>

text \<open>
  \<open>normalize_registro_times\<close>, lines 54-77 (the argument \<open>times\<close> is \<open>tms\<close> here).
  \<open>sorted(adjusted, key=lambda x: (x[0], x[1]))\<close>
  is a sort on the pair (adjusted minute, index) in lexicographic order.
\<close>

definition normalize_registro_times :: "time list \<Rightarrow> time list \<times> bool" where
  "normalize_registro_times tms =
     (if tms = [] \<or> length tms < 2 then (tms, False)
      else
        (let ms = map mins tms;
             entry_min = hd ms;
             has_smaller = (\<exists>m \<in> set (tl ms). m < entry_min);
             span = Max (set ms) - Min (set ms);
             wrap_likely = ((entry_min \<ge> 18 * 60 \<and> has_smaller) \<or> (has_smaller \<and> span > 12 * 60));
             adjusted = map (\<lambda>(idx, (t, m)).
                               (m + (if wrap_likely \<and> m < entry_min then 1440 else 0), idx, t))
                            (enumerate 0 (zip tms ms));
             ordered = sort_key (\<lambda>x. (fst x, fst (snd x))) adjusted;
             out = map (\<lambda>(_, _, t). t) ordered
         in (out, out \<noteq> tms)))"

section \<open>Event mapper\<close>

text \<open>
  The event dictionary: its six time slots are a map from the label to the time
  (\<open>eventos.get(k)\<close> is \<open>None\<close> both for a missing key and for a stored \<open>None\<close>); the integer
  stored under \<open>"_extra_registros"\<close> is kept beside it.
\<close>

datatype label =
  Entrada | Salida_a_comer | Regreso_de_comer | Salida_a_cenar | Regreso_de_cenar | Salida

record mapped =
  eventos :: "label \<rightharpoonup> time"
  extra_registros :: int

text \<open>\<open>map_eventos\<close>, lines 83-114.\<close>

definition map_eventos :: "time list \<Rightarrow> mapped" where
  "map_eventos tms =
     (let n = length tms;
          extra = max 0 (int n - 6)
      in if n = 0 then \<lparr>eventos = Map.empty, extra_registros = extra\<rparr>
         else if n = 1 then \<lparr>eventos = [Entrada \<mapsto> hd tms], extra_registros = extra\<rparr>
         else
           (let out = [Entrada \<mapsto> hd tms, Salida \<mapsto> last tms];
                middle = butlast (tl tms);
                middle_labels = [Salida_a_comer, Regreso_de_comer, Salida_a_cenar, Regreso_de_cenar]
            in \<lparr>eventos = fold (\<lambda>(lab, t) out. out(lab \<mapsto> t)) (zip middle_labels (take 4 middle)) out,
                extra_registros = extra\<rparr>))"

section \<open>Deduction engine\<close>

text \<open>The fields of \<open>AppConfig\<close> (\<open>config.py\<close>) that \<open>calcular_trabajado\<close> reads.\<close>

record AppConfig =
  umbral_extra_min :: int
  redondeo_extra_step_min :: int
  redondeo_extra_modo :: string
  tope_descuento_comida_min :: int
  umbral_comida_media_hora_min :: int

text \<open>The defaults of the dataclass.\<close>

definition default_cfg :: AppConfig where
  "default_cfg = \<lparr>umbral_extra_min = 480, redondeo_extra_step_min = 1,
                   redondeo_extra_modo = ''none'', tope_descuento_comida_min = 30,
                   umbral_comida_media_hora_min = 60\<rparr>"

text \<open>
  The tuple returned by \<open>calcular_trabajado\<close>, its components named after the variables
  returned at line 292, in that order.
\<close>

record resultado =
  trabajado :: int
  extra :: int
  comida_ded :: int
  cena_ded :: int
  extra_ded :: int
  nolab_overlap_cd :: int
  nolab_solape_interno :: int
  ignored_outside_shift :: int

definition all_zero :: resultado where
  "all_zero = \<lparr>trabajado = 0, extra = 0, comida_ded = 0, cena_ded = 0, extra_ded = 0,
                nolab_overlap_cd = 0, nolab_solape_interno = 0, ignored_outside_shift = 0\<rparr>"

text \<open>
  The nested helpers of \<open>calcular_trabajado\<close> (lines 179-226). They close over
  \<open>crosses_midnight\<close> and \<open>ent\<close>, which are parameters here. A datetime is its number of
  minutes since 2000-01-01 00:00, so \<open>+= timedelta(days=1)\<close> adds 1440.
\<close>

definition to_shift_dt :: "bool \<Rightarrow> time \<Rightarrow> time \<Rightarrow> int" where
  "to_shift_dt crosses_midnight ent t =
     (let base = mins t
      in if crosses_midnight \<and> time_less t ent then base + 1440 else base)"

definition window :: "bool \<Rightarrow> time \<Rightarrow> time \<Rightarrow> time \<Rightarrow> int \<times> int" where
  "window crosses_midnight ent ent_t sal_t =
     (let a = to_shift_dt crosses_midnight ent ent_t;
          b = to_shift_dt crosses_midnight ent sal_t
      in (a, if b < a then b + 1440 else b))"

text \<open>
  \<open>_overlap_min\<close>: its guard \<open>not a1 or not a2 or not b1 or not b2\<close> only catches \<open>None\<close>
  (every \<open>time\<close> is truthy), and every call passes times.
\<close>

definition overlap_min :: "bool \<Rightarrow> time \<Rightarrow> time \<Rightarrow> time \<Rightarrow> time \<Rightarrow> time \<Rightarrow> int" where
  "overlap_min crosses_midnight ent a1 a2 b1 b2 =
     (let A1 = to_shift_dt crosses_midnight ent a1;
          A2 = to_shift_dt crosses_midnight ent a2;
          B1 = to_shift_dt crosses_midnight ent b1;
          B2 = to_shift_dt crosses_midnight ent b2;
          A2' = (if A2 < A1 then A2 + 1440 else A2);
          B2' = (if B2 < B1 then B2 + 1440 else B2);
          s = max A1 B1;
          e = min A2' B2'
      in if e \<le> s then 0 else e - s)"

definition clip_to_shift ::
  "bool \<Rightarrow> time \<Rightarrow> time \<Rightarrow> time \<Rightarrow> time \<Rightarrow> time \<Rightarrow> (time \<times> time \<times> int) option" where
  "clip_to_shift crosses_midnight ent ini_t fin_t ent_t sal_t =
     (let (s0, s1) = window crosses_midnight ent ent_t sal_t;
          a0 = to_shift_dt crosses_midnight ent ini_t;
          a1 = to_shift_dt crosses_midnight ent fin_t;
          a1' = (if a1 < a0 then a1 + 1440 else a1);
          i0 = max a0 s0;
          i1 = min a1' s1
      in if i1 \<le> i0 then None
         else
           (let inside = i1 - i0;
                total_i = a1' - a0;
                ignorados = max 0 (total_i - inside)
            in Some (time_of_dt i0, time_of_dt i1, ignorados)))"

text \<open>
  Meal deduction, lines 139-154, with \<open>sal\<close> present: the deducted minutes and
  \<open>comida_fin_ventana\<close>. \<open>add_minutes\<close> is the one call that can raise.
\<close>

definition descuento_comida ::
  "(label \<rightharpoonup> time) \<Rightarrow> AppConfig \<Rightarrow> time \<Rightarrow> error + (int \<times> time option)" where
  "descuento_comida ev cfg sal =
     (case ev Salida_a_comer of
        None \<Rightarrow> Inr (0, None)
      | Some sal_com \<Rightarrow>
          (let fin_real = (case ev Regreso_de_comer of Some reg_com \<Rightarrow> reg_com | None \<Rightarrow> sal);
               dur_real = minutos_entre (Some sal_com) (Some fin_real);
               umbral = umbral_comida_media_hora_min cfg
           in if dur_real \<le> umbral then
                (let ded = min dur_real (tope_descuento_comida_min cfg)
                 in case add_minutes (Some sal_com) ded of
                      Inl e \<Rightarrow> Inl e
                    | Inr fin_ventana \<Rightarrow> Inr (ded, fin_ventana))
              else Inr (dur_real, Some fin_real)))"

text \<open>Dinner deduction, lines 156-163, with \<open>sal\<close> present.\<close>

definition descuento_cena :: "(label \<rightharpoonup> time) \<Rightarrow> time \<Rightarrow> int" where
  "descuento_cena ev sal =
     (case ev Salida_a_cenar of
        None \<Rightarrow> 0
      | Some sal_cen \<Rightarrow>
          (case ev Regreso_de_cenar of
             Some reg_cen \<Rightarrow> minutos_entre (Some sal_cen) (Some reg_cen)
           | None \<Rightarrow> minutos_entre (Some sal_cen) (Some sal)))"

text \<open>The windows already deducted, lines 170-177.\<close>

definition ventanas_descuento ::
  "(label \<rightharpoonup> time) \<Rightarrow> time option \<Rightarrow> time \<Rightarrow> (time \<times> time) list" where
  "ventanas_descuento ev comida_fin_ventana sal =
     (case (ev Salida_a_comer, comida_fin_ventana) of
        (Some sal_com, Some fin_v) \<Rightarrow> [(sal_com, fin_v)]
      | _ \<Rightarrow> [])
     @
     (case ev Salida_a_cenar of
        Some sal_cen \<Rightarrow>
          [(sal_cen, (case ev Regreso_de_cenar of Some reg_cen \<Rightarrow> reg_cen | None \<Rightarrow> sal))]
      | None \<Rightarrow> [])"

text \<open>
  One round of the loop of lines 231-248 on the state (\<open>intervals\<close>,
  \<open>ignored_outside_shift\<close>). \<open>sal\<close> is present, so \<open>fin_eff\<close> is never \<open>None\<close>.
\<close>

definition clip_step ::
  "bool \<Rightarrow> time \<Rightarrow> time \<Rightarrow> time option \<times> time option \<times> string
     \<Rightarrow> (time \<times> time) list \<times> int \<Rightarrow> (time \<times> time) list \<times> int" where
  "clip_step crosses_midnight ent sal x st =
     (case x of (ini, fin, nota) \<Rightarrow>
      case st of (intervals, ignored) \<Rightarrow>
        (case ini of
           None \<Rightarrow> (intervals, ignored)
         | Some ini' \<Rightarrow>
             (let fin_eff = (case fin of Some f \<Rightarrow> f | None \<Rightarrow> sal)
              in case clip_to_shift crosses_midnight ent ini' fin_eff ent sal of
                   None \<Rightarrow> (intervals, ignored + minutos_entre (Some ini') (Some fin_eff))
                 | Some (ini_c, fin_c, ign) \<Rightarrow> (intervals @ [(ini_c, fin_c)], ignored + ign))))"

text \<open>
  One round of the merge loop of lines 254-277 on the state (\<open>merged\<close>,
  \<open>nolab_solape_interno\<close>).
\<close>

definition merge_step ::
  "bool \<Rightarrow> time \<Rightarrow> time \<times> time \<Rightarrow> (time \<times> time) list \<times> int \<Rightarrow> (time \<times> time) list \<times> int" where
  "merge_step crosses_midnight ent x st =
     (case x of (ini, fin) \<Rightarrow>
      case st of (merged, solape) \<Rightarrow>
        if merged = [] then (merged @ [(ini, fin)], solape)
        else
          (case last merged of (last_ini, last_fin) \<Rightarrow>
             if overlap_min crosses_midnight ent last_ini last_fin ini fin > 0 \<or> last_fin = ini then
               (let solape' = solape + overlap_min crosses_midnight ent last_ini last_fin ini fin;
                    lf = to_shift_dt crosses_midnight ent last_fin;
                    cf = to_shift_dt crosses_midnight ent fin;
                    li = to_shift_dt crosses_midnight ent last_ini;
                    ci = to_shift_dt crosses_midnight ent ini;
                    lf' = (if lf < li then lf + 1440 else lf);
                    cf' = (if cf < ci then cf + 1440 else cf)
                in (if cf' > lf' then butlast merged @ [(last_ini, fin)] else merged, solape'))
             else (merged @ [(ini, fin)], solape)))"

text \<open>
  One round of the loop of lines 279-285 on the state (\<open>extra_ded\<close>,
  \<open>nolab_overlap_cd\<close>).
\<close>

definition descontar_step ::
  "bool \<Rightarrow> time \<Rightarrow> (time \<times> time) list \<Rightarrow> time \<times> time \<Rightarrow> int \<times> int \<Rightarrow> int \<times> int" where
  "descontar_step crosses_midnight ent ventanas x st =
     (case x of (ini, fin) \<Rightarrow>
      case st of (ded, overlap_cd) \<Rightarrow>
        (let dur = minutos_entre (Some ini) (Some fin);
             ov = fold (\<lambda>(v_ini, v_fin) ov. ov + overlap_min crosses_midnight ent ini fin v_ini v_fin)
                       ventanas 0
         in (ded + max 0 (dur - ov), overlap_cd + ov)))"

text \<open>
  The block of lines 227-285 under \<open>if no_laborado_extra:\<close>: it yields \<open>extra_ded\<close>,
  \<open>nolab_overlap_cd\<close>, \<open>nolab_solape_interno\<close> and \<open>ignored_outside_shift\<close>, which
  all stay 0 when the list is empty (or \<open>None\<close>).
\<close>

definition procesar_no_laborado ::
  "bool \<Rightarrow> time \<Rightarrow> time \<Rightarrow> (time \<times> time) list \<Rightarrow> (time option \<times> time option \<times> string) list
     \<Rightarrow> int \<times> int \<times> int \<times> int" where
  "procesar_no_laborado crosses_midnight ent sal ventanas no_laborado_extra =
     (if no_laborado_extra \<noteq> [] then
        (let (intervals, ignored) =
               fold (clip_step crosses_midnight ent sal) no_laborado_extra ([], 0);
             sorted_intervals =
               sort_key (\<lambda>x. minutos_entre (Some ent) (Some (fst x))) intervals;
             (merged, solape) =
               fold (merge_step crosses_midnight ent) sorted_intervals ([], 0);
             (ded, overlap_cd) =
               fold (descontar_step crosses_midnight ent ventanas) merged (0, 0)
         in (ded, overlap_cd, solape, ignored))
      else (0, 0, 0, 0))"

text \<open>
  \<open>calcular_trabajado\<close>, lines 116-292. The argument \<open>no_laborado_extra\<close> is a list;
  \<open>None\<close> behaves as the empty list (\<open>if no_laborado_extra:\<close>).
\<close>

definition calcular_trabajado ::
  "(label \<rightharpoonup> time) \<Rightarrow> AppConfig \<Rightarrow> (time option \<times> time option \<times> string) list
     \<Rightarrow> error + resultado" where
  "calcular_trabajado ev cfg no_laborado_extra =
     (case (ev Entrada, ev Salida) of
        (Some ent, Some sal) \<Rightarrow>
          (let total = minutos_entre (Some ent) (Some sal)
           in case descuento_comida ev cfg sal of
                Inl e \<Rightarrow> Inl e
              | Inr (comida, comida_fin_ventana) \<Rightarrow>
                  (let cena = descuento_cena ev sal;
                       ventanas = ventanas_descuento ev comida_fin_ventana sal;
                       crosses_midnight = time_less sal ent;
                       (nolab, overlap_cd, solape_interno, ignored) =
                         procesar_no_laborado crosses_midnight ent sal ventanas no_laborado_extra;
                       trab = max 0 (total - comida - cena - nolab);
                       ext = max 0 (trab - umbral_extra_min cfg);
                       ext' = (if redondeo_extra_step_min cfg > 1 \<and> redondeo_extra_modo cfg \<noteq> ''none''
                               then round_minutes ext (redondeo_extra_step_min cfg) (redondeo_extra_modo cfg)
                               else ext)
                   in Inr \<lparr>trabajado = trab, extra = ext', comida_ded = comida, cena_ded = cena,
                           extra_ded = nolab, nolab_overlap_cd = overlap_cd,
                           nolab_solape_interno = solape_interno, ignored_outside_shift = ignored\<rparr>))
      | _ \<Rightarrow> Inr all_zero)"

section \<open>The normalizer as the specification words it\<close>

text \<open>
  Some punch after the first has a minute-of-day strictly below the first punch's.
\<close>

definition spec_has_smaller :: "time list \<Rightarrow> bool" where
  "spec_has_smaller tms \<longleftrightarrow> (\<exists>t \<in> set (tl tms). mins t < mins (hd tms))"

text \<open>
  The overnight heuristic: the first punch is at 18:00 (minute 1080) or later and a later
  punch is smaller, or a later punch is smaller and the largest minus the smallest
  minute-of-day exceeds 12 hours (720).
\<close>

definition spec_wrap_likely :: "time list \<Rightarrow> bool" where
  "spec_wrap_likely tms \<longleftrightarrow>
     (mins (hd tms) \<ge> 1080 \<and> spec_has_smaller tms)
     \<or> (spec_has_smaller tms \<and> Max (mins ` set tms) - Min (mins ` set tms) > 720)"

text \<open>
  The ordering key of a punch: when the heuristic fires, a punch strictly below the first
  punch counts 1440 minutes later.
\<close>

definition spec_adjusted_minute :: "time list \<Rightarrow> time \<Rightarrow> int" where
  "spec_adjusted_minute tms t =
     (if spec_wrap_likely tms \<and> mins t < mins (hd tms) then mins t + 1440 else mins t)"

section \<open>Well-formed inputs and the meal rule as the specification words it\<close>

text \<open>Every time stored in the event dictionary is a Python \<open>time\<close> value.\<close>

definition valid_eventos :: "(label \<rightharpoonup> time) \<Rightarrow> bool" where
  "valid_eventos ev \<longleftrightarrow>
     list_all (\<lambda>l. case ev l of None \<Rightarrow> True | Some t \<Rightarrow> valid_time t)
       [Entrada, Salida_a_comer, Regreso_de_comer, Salida_a_cenar, Regreso_de_cenar, Salida]"

text \<open>Every start and end of an exception interval is \<open>None\<close> or a Python \<open>time\<close> value.\<close>

definition valid_no_laborado :: "(time option \<times> time option \<times> string) list \<Rightarrow> bool" where
  "valid_no_laborado nl \<longleftrightarrow>
     list_all (\<lambda>x. (case fst x of None \<Rightarrow> True | Some t \<Rightarrow> valid_time t)
                  \<and> (case fst (snd x) of None \<Rightarrow> True | Some t \<Rightarrow> valid_time t)) nl"

text \<open>Effective meal end: MealIn if present, else Exit.\<close>

definition spec_meal_end :: "(label \<rightharpoonup> time) \<Rightarrow> time \<Rightarrow> time" where
  "spec_meal_end ev sal = (case ev Regreso_de_comer of Some t \<Rightarrow> t | None \<Rightarrow> sal)"

text \<open>
  Meal deduction: 0 without MealOut; otherwise, with \<open>actual\<close> the minutes from MealOut to the
  effective end, \<open>min actual cap\<close> when \<open>actual\<close> is at most the ceiling, and \<open>actual\<close> above it.
\<close>

definition spec_meal_deduction :: "(label \<rightharpoonup> time) \<Rightarrow> AppConfig \<Rightarrow> time \<Rightarrow> int" where
  "spec_meal_deduction ev cfg sal =
     (case ev Salida_a_comer of
        None \<Rightarrow> 0
      | Some mo \<Rightarrow>
          (let actual = minutos_entre (Some mo) (Some (spec_meal_end ev sal))
           in if actual \<le> umbral_comida_media_hora_min cfg
              then min actual (tope_descuento_comida_min cfg)
              else actual))"

text \<open>
  The recorded meal window: from MealOut to MealOut plus the deducted minutes (on the clock)
  in the capped case, to the effective end in the full case; none without MealOut.
\<close>

definition spec_meal_window :: "(label \<rightharpoonup> time) \<Rightarrow> AppConfig \<Rightarrow> time \<Rightarrow> (time \<times> time) option" where
  "spec_meal_window ev cfg sal =
     (case ev Salida_a_comer of
        None \<Rightarrow> None
      | Some mo \<Rightarrow>
          (let actual = minutos_entre (Some mo) (Some (spec_meal_end ev sal))
           in if actual \<le> umbral_comida_media_hora_min cfg
              then Some (mo, time_of_dt (mins mo + spec_meal_deduction ev cfg sal))
              else Some (mo, spec_meal_end ev sal)))"

text \<open>The dinner window: from DinnerOut to DinnerIn if present, else Exit.\<close>

definition spec_dinner_window :: "(label \<rightharpoonup> time) \<Rightarrow> time \<Rightarrow> (time \<times> time) option" where
  "spec_dinner_window ev sal =
     (case ev Salida_a_cenar of
        None \<Rightarrow> None
      | Some d \<Rightarrow> Some (d, case ev Regreso_de_cenar of Some t \<Rightarrow> t | None \<Rightarrow> sal))"

section \<open>The exception handling as the specification words it\<close>

text \<open>
  The specification works on the shift timeline: a clock time is placed by \<open>to_shift_dt\<close>
  (in minutes since 00:00 of the day of Entry), and an interval given by a start and an end
  clock time runs from the start's place to the end's place, the end a day later when it
  would come before the start.
\<close>

definition spec_span :: "bool \<Rightarrow> time \<Rightarrow> time \<times> time \<Rightarrow> int \<times> int" where
  "spec_span cm ent x =
     (let a = to_shift_dt cm ent (fst x);
          b = to_shift_dt cm ent (snd x)
      in (a, if b < a then b + 1440 else b))"

text \<open>Minutes shared by two intervals of the timeline.\<close>

definition spec_overlap :: "int \<times> int \<Rightarrow> int \<times> int \<Rightarrow> int" where
  "spec_overlap x y = max 0 (min (snd x) (snd y) - max (fst x) (fst y))"

text \<open>
  The effective exceptions: one with an absent start is skipped, an absent end is replaced
  by Exit.
\<close>

definition spec_effective ::
  "time \<Rightarrow> (time option \<times> time option \<times> string) list \<Rightarrow> (time \<times> time) list" where
  "spec_effective sal nl =
     List.map_filter
       (\<lambda>x. case fst x of
               None \<Rightarrow> None
             | Some ini \<Rightarrow> Some (ini, case fst (snd x) of None \<Rightarrow> sal | Some fin \<Rightarrow> fin))
       nl"

text \<open>
  Clipping an interval \<open>x\<close> to the window \<open>w\<close>: wholly outside, it is dropped and its full
  duration is ignored; otherwise it is trimmed to the window and the trimmed-off minutes are
  ignored. The result is the surviving interval, if any, and the ignored minutes.
\<close>

definition spec_clip :: "int \<times> int \<Rightarrow> int \<times> int \<Rightarrow> (int \<times> int) option \<times> int" where
  "spec_clip w x =
     (let i0 = max (fst x) (fst w);
          i1 = min (snd x) (snd w)
      in if i1 \<le> i0 then (None, snd x - fst x)
         else (Some (i0, i1), (snd x - fst x) - (i1 - i0)))"

text \<open>
  Merging, one interval at a time in sorted order, on the state (merged intervals, internal
  overlap): an interval that overlaps the running (last) interval by more than 0 minutes, or
  starts exactly where it ends, extends its end to the later of the two ends and adds the
  overlapping minutes to the counter; any other interval starts a new running interval.
\<close>

definition spec_merge_step ::
  "int \<times> int \<Rightarrow> (int \<times> int) list \<times> int \<Rightarrow> (int \<times> int) list \<times> int" where
  "spec_merge_step x st =
     (case st of (ms, ov) \<Rightarrow>
        if ms = [] then ([x], ov)
        else if spec_overlap (last ms) x > 0 \<or> snd (last ms) = fst x
        then (butlast ms @ [(fst (last ms), max (snd (last ms)) (snd x))], ov + spec_overlap (last ms) x)
        else (ms @ [x], ov))"

text \<open>
  The whole step 4: the no-labor deduction, the overlap with the meal and dinner windows,
  the internal overlap and the minutes ignored outside the shift. The deduction of a merged
  interval is its duration minus its overlaps with the windows, never below 0.
\<close>

definition spec_no_labor ::
  "bool \<Rightarrow> time \<Rightarrow> time \<Rightarrow> (time \<times> time) list \<Rightarrow> (time option \<times> time option \<times> string) list
     \<Rightarrow> int \<times> int \<times> int \<times> int" where
  "spec_no_labor cm ent sal ventanas nl =
     (let w = spec_span cm ent (ent, sal);
          clipped = map (\<lambda>x. spec_clip w (spec_span cm ent x)) (spec_effective sal nl);
          ignored = sum_list (map snd clipped);
          survivors = List.map_filter fst clipped;
          sorted_survivors = sort_key (\<lambda>x. fst x - fst w) survivors;
          (merged, solape) = fold spec_merge_step sorted_survivors ([], 0);
          ws = map (spec_span cm ent) ventanas;
          overlap_cd = sum_list (map (\<lambda>x. sum_list (map (spec_overlap x) ws)) merged);
          ded = sum_list (map (\<lambda>x. max 0 ((snd x - fst x) - sum_list (map (spec_overlap x) ws))) merged)
      in (ded, overlap_cd, solape, ignored))"

text \<open>
  Events in chronological order within the shift: the offsets from Entry of MealOut, the
  effective meal end, DinnerOut and the effective dinner end (those that are present) never
  decrease in that order and none exceeds the span from Entry to Exit.
\<close>

definition events_ordered :: "(label \<rightharpoonup> time) \<Rightarrow> bool" where
  "events_ordered ev =
     (case (ev Entrada, ev Salida) of
        (Some ent, Some sal) \<Rightarrow>
          (let off = (\<lambda>t. minutos_entre (Some ent) (Some t));
               points =
                 (case ev Salida_a_comer of
                    None \<Rightarrow> []
                  | Some mo \<Rightarrow> [off mo, off (spec_meal_end ev sal)])
                 @ (case spec_dinner_window ev sal of
                      None \<Rightarrow> []
                    | Some d \<Rightarrow> [off (fst d), off (snd d)])
           in sorted points \<and> list_all (\<lambda>p. p \<le> off sal) points)
      | _ \<Rightarrow> True)"

section \<open>The normalizer is a stable sort on the adjusted minute\<close>

lemma insort_key_indexed:
  fixes f :: "'a \<Rightarrow> int"
  assumes "\<forall>(a, i, t) \<in> set L. n < i \<and> a = f t"
  shows "map (\<lambda>(a, i, t). t) (insort_key (\<lambda>x. (fst x, fst (snd x))) (f x, n, x) L)
         = insort_key f x (map (\<lambda>(a, i, t). t) L)"
  using assms by (induction L) auto

lemma sort_key_indexed:
  fixes f :: "'a \<Rightarrow> int"
  shows "map (\<lambda>(a, i, t). t)
           (sort_key (\<lambda>x. (fst x, fst (snd x))) (map (\<lambda>(i, t). (f t, i, t)) (enumerate n xs)))
         = sort_key f xs"
proof (induction xs arbitrary: n)
  case Nil
  then show ?case by simp
next
  case (Cons x xs)
  let ?L = "sort_key (\<lambda>x. (fst x, fst (snd x))) (map (\<lambda>(i, t). (f t, i, t)) (enumerate (Suc n) xs))"
  have "\<forall>(a, i, t) \<in> set ?L. n < i \<and> a = f t"
    by (auto simp: in_set_enumerate_eq)
  from insort_key_indexed[OF this, of x] Cons.IH[of "Suc n"] show ?case
    by simp
qed

lemma adjusted_eq:
  "map (\<lambda>(idx, (t, m)). (m + (if W \<and> m < e then 1440 else 0), idx, t)) (enumerate n (zip xs (map mins xs)))
   = map (\<lambda>(i, t). (mins t + (if W \<and> mins t < e then 1440 else 0), i, t)) (enumerate n xs)"
  by (induction xs arbitrary: n) auto

lemma normalize_sort_key:
  assumes len: "2 \<le> length tms"
  shows "normalize_registro_times tms
     = (sort_key (spec_adjusted_minute tms) tms, sort_key (spec_adjusted_minute tms) tms \<noteq> tms)"
proof -
  from len have ne: "tms \<noteq> []" by auto
  define HS where "HS = (\<exists>m \<in> set (tl (map mins tms)). m < hd (map mins tms))"
  define W where "W = ((hd (map mins tms) \<ge> 18 * 60 \<and> HS)
                        \<or> (HS \<and> Max (set (map mins tms)) - Min (set (map mins tms)) > 12 * 60))"
  have hs: "HS = spec_has_smaller tms"
    using ne by (simp add: HS_def spec_has_smaller_def map_tl[symmetric] hd_map)
  have W: "W = spec_wrap_likely tms"
    using ne by (simp add: W_def hs spec_wrap_likely_def hd_map)
  have f: "(\<lambda>t. mins t + (if W \<and> mins t < hd (map mins tms) then 1440 else 0))
           = spec_adjusted_minute tms"
    using ne by (auto simp: W spec_adjusted_minute_def fun_eq_iff hd_map)
  have "normalize_registro_times tms =
          (let out = map (\<lambda>(_, _, t). t)
                       (sort_key (\<lambda>x. (fst x, fst (snd x)))
                          (map (\<lambda>(idx, (t, m)). (m + (if W \<and> m < hd (map mins tms) then 1440 else 0), idx, t))
                               (enumerate 0 (zip tms (map mins tms)))))
           in (out, out \<noteq> tms))"
    using len ne unfolding normalize_registro_times_def W_def HS_def Let_def by simp
  also have "\<dots> = (sort_key (spec_adjusted_minute tms) tms, sort_key (spec_adjusted_minute tms) tms \<noteq> tms)"
    unfolding adjusted_eq sort_key_indexed f Let_def ..
  finally show ?thesis .
qed


lemma has_smaller_set:
  assumes "tms \<noteq> []"
  shows "spec_has_smaller tms \<longleftrightarrow> (\<exists>t \<in> set tms. mins t < mins (hd tms))"
proof -
  from assms obtain x xs where "tms = x # xs" by (cases tms) auto
  then show ?thesis by (auto simp: spec_has_smaller_def)
qed

lemma wrap_likely_cong:
  assumes "tms \<noteq> []" "out \<noteq> []" "set out = set tms" "mins (hd out) = mins (hd tms)"
  shows "spec_wrap_likely out = spec_wrap_likely tms"
  using assms by (simp add: spec_wrap_likely_def has_smaller_set)

lemma sorted_hd_least:
  fixes f :: "'a \<Rightarrow> int"
  assumes "sorted (map f out)" "t \<in> set out"
  shows "f (hd out) \<le> f t"
  using assms by (cases out) auto

lemma mins_less_1440: "valid_time t \<Longrightarrow> mins t < 1440"
  by (simp add: valid_time_def mins_def)

lemma mins_nonneg: "0 \<le> mins t"
  by (simp add: mins_def)

lemma normalize_idem_aux:
  assumes len: "2 \<le> length tms" and valid: "valid_time (hd tms)"
  defines "out \<equiv> sort_key (spec_adjusted_minute tms) tms"
  shows "sort_key (spec_adjusted_minute out) out = out"
proof -
  let ?f = "spec_adjusted_minute tms"
  from len have ne: "tms \<noteq> []" by auto
  have set_out: "set out = set tms" by (simp add: out_def)
  have "length out = length tms" by (simp add: out_def)
  with ne have ne_out: "out \<noteq> []" by auto
  have srt: "sorted (map ?f out)" by (simp add: out_def)
  have hd_in: "hd out \<in> set tms" using ne_out set_out hd_in_set by blast
  have "sorted (map (spec_adjusted_minute out) out)"
  proof (cases "spec_wrap_likely tms")
    case False
    then have f: "?f = mins" by (auto simp: spec_adjusted_minute_def fun_eq_iff)
    have "\<not> spec_has_smaller out"
      using sorted_hd_least[OF srt[unfolded f]] ne_out
      by (auto simp: has_smaller_set not_less)
    then have "\<not> spec_wrap_likely out" by (simp add: spec_wrap_likely_def)
    then have "spec_adjusted_minute out = mins" by (auto simp: spec_adjusted_minute_def fun_eq_iff)
    with srt f show ?thesis by simp
  next
    case True
    let ?e = "mins (hd tms)"
    have e: "?e < 1440" using valid by (rule mins_less_1440)
    have ge: "?e \<le> ?f t" for t
      using e mins_nonneg[of t] True by (auto simp: spec_adjusted_minute_def)
    have "?f (hd out) \<le> ?f (hd tms)"
      using sorted_hd_least[OF srt, of "hd tms"] ne set_out by simp
    moreover have "?f (hd tms) = ?e" by (simp add: spec_adjusted_minute_def)
    ultimately have "?f (hd out) = ?e" using ge[of "hd out"] by simp
    then have hd_eq: "mins (hd out) = ?e"
      using e mins_nonneg[of "hd out"] True by (auto simp: spec_adjusted_minute_def split: if_splits)
    have "spec_wrap_likely out = spec_wrap_likely tms"
      using ne ne_out set_out hd_eq by (rule wrap_likely_cong)
    then have "spec_adjusted_minute out = ?f"
      using hd_eq by (auto simp: spec_adjusted_minute_def fun_eq_iff)
    with srt show ?thesis by simp
  qed
  then show ?thesis by (rule sort_key_id_if_sorted)
qed

section \<open>Properties of the normalizer\<close>

text \<open>
  C4. A list of fewer than 2 punches is returned unchanged with the flag false. Otherwise
  the output is the input stably sorted by the adjusted minute (\<open>sort_key\<close> is the stable
  insertion sort, so punches of equal adjusted minute keep their input order, which is the
  tie-break on the original index): it is ordered by the adjusted minute, every group of
  punches with the same adjusted minute appears in its input order, and it holds the input's
  own time values. The flag says whether the output differs from the input.
\<close>

theorem normalize_registro_times_stable_sort:
  "normalize_registro_times tms =
     (if length tms < 2 then (tms, False)
      else (sort_key (spec_adjusted_minute tms) tms,
            sort_key (spec_adjusted_minute tms) tms \<noteq> tms))
   \<and> sorted (map (spec_adjusted_minute tms) (sort_key (spec_adjusted_minute tms) tms))
   \<and> (\<forall>k. filter (\<lambda>t. spec_adjusted_minute tms t = k) (sort_key (spec_adjusted_minute tms) tms)
            = filter (\<lambda>t. spec_adjusted_minute tms t = k) tms)
   \<and> mset (sort_key (spec_adjusted_minute tms) tms) = mset tms"
proof (cases "2 \<le> length tms")
  case True
  then show ?thesis by (simp add: normalize_sort_key sort_key_stable)
next
  case False
  then have "normalize_registro_times tms = (tms, False)"
    by (auto simp: normalize_registro_times_def)
  with False show ?thesis by (simp add: sort_key_stable)
qed

theorem normalize_registro_times_stable_sort_witness:
  "normalize_registro_times [Time 22 0, Time 23 0, Time 1 0, Time 23 30]
     = ([Time 22 0, Time 23 0, Time 23 30, Time 1 0], True)
   \<and> spec_wrap_likely [Time 22 0, Time 23 0, Time 1 0, Time 23 30]
   \<and> normalize_registro_times [Time 9 0] = ([Time 9 0], False)"
proof -
  have a: "(if length [Time 22 0, Time 23 0, Time 1 0, Time 23 30] < 2
            then ([Time 22 0, Time 23 0, Time 1 0, Time 23 30], False)
            else (sort_key (spec_adjusted_minute [Time 22 0, Time 23 0, Time 1 0, Time 23 30])
                    [Time 22 0, Time 23 0, Time 1 0, Time 23 30],
                  sort_key (spec_adjusted_minute [Time 22 0, Time 23 0, Time 1 0, Time 23 30])
                    [Time 22 0, Time 23 0, Time 1 0, Time 23 30]
                  \<noteq> [Time 22 0, Time 23 0, Time 1 0, Time 23 30]))
           = ([Time 22 0, Time 23 0, Time 23 30, Time 1 0], True)"
    by code_simp
  have b: "spec_wrap_likely [Time 22 0, Time 23 0, Time 1 0, Time 23 30]"
    by code_simp
  have c: "(if length [Time 9 0] < 2 then ([Time 9 0], False)
            else (sort_key (spec_adjusted_minute [Time 9 0]) [Time 9 0],
                  sort_key (spec_adjusted_minute [Time 9 0]) [Time 9 0] \<noteq> [Time 9 0]))
           = ([Time 9 0], False)"
    by simp
  from normalize_registro_times_stable_sort[of "[Time 22 0, Time 23 0, Time 1 0, Time 23 30]"] a
  have "normalize_registro_times [Time 22 0, Time 23 0, Time 1 0, Time 23 30]
          = ([Time 22 0, Time 23 0, Time 23 30, Time 1 0], True)"
    by (simp only:)
  moreover from normalize_registro_times_stable_sort[of "[Time 9 0]"] c
  have "normalize_registro_times [Time 9 0] = ([Time 9 0], False)"
    by (simp only:)
  ultimately show ?thesis using b by simp
qed

text \<open>
  C9. Normalization is idempotent: normalizing the output of the normalizer returns it
  unchanged with the flag false. The punches are Python \<open>time\<close> values, so their fields
  are in range.
\<close>

theorem normalize_registro_times_idempotent:
  assumes "\<forall>t \<in> set tms. valid_time t" and "normalize_registro_times tms = (out, r)"
  shows "normalize_registro_times out = (out, False)"
proof (cases "2 \<le> length tms")
  case False
  then have "normalize_registro_times tms = (tms, False)"
    by (auto simp: normalize_registro_times_def)
  with assms show ?thesis by simp
next
  case True
  then have "tms \<noteq> []" by auto
  with assms(1) have v: "valid_time (hd tms)" by simp
  from True assms(2) have out: "out = sort_key (spec_adjusted_minute tms) tms"
    by (simp add: normalize_sort_key)
  then have "2 \<le> length out" using True by simp
  then show ?thesis
    using normalize_idem_aux[OF True v] by (simp add: normalize_sort_key out)
qed

theorem normalize_registro_times_idempotent_witness:
  "valid_time (Time 10 0) \<and> valid_time (Time 8 0) \<and> valid_time (Time 23 0)
   \<and> normalize_registro_times [Time 10 0, Time 8 0, Time 23 0]
       = ([Time 10 0, Time 23 0, Time 8 0], True)
   \<and> normalize_registro_times [Time 10 0, Time 23 0, Time 8 0]
       = ([Time 10 0, Time 23 0, Time 8 0], False)"
proof -
  have v: "\<forall>t \<in> set [Time 10 0, Time 8 0, Time 23 0]. valid_time t"
    by (simp add: valid_time_def)
  have n: "normalize_registro_times [Time 10 0, Time 8 0, Time 23 0]
             = ([Time 10 0, Time 23 0, Time 8 0], True)"
    by code_simp
  from normalize_registro_times_idempotent[OF v n] v n show ?thesis by simp
qed

text \<open>
  C10. The list returned by the normalizer is a permutation of its input: same length, same
  multiset of time values. No punch is dropped, duplicated or altered, and no output value
  carries the 1440-minute adjustment.
\<close>

theorem normalize_registro_times_permutation:
  "mset (fst (normalize_registro_times tms)) = mset tms
   \<and> length (fst (normalize_registro_times tms)) = length tms
   \<and> set (fst (normalize_registro_times tms)) = set tms"
proof (cases "2 \<le> length tms")
  case True
  then show ?thesis by (simp add: normalize_sort_key)
next
  case False
  then have "normalize_registro_times tms = (tms, False)"
    by (auto simp: normalize_registro_times_def)
  then show ?thesis by simp
qed

theorem normalize_registro_times_permutation_witness:
  "mset (fst (normalize_registro_times [Time 22 0, Time 2 0, Time 23 0]))
     = mset [Time 22 0, Time 2 0, Time 23 0]
   \<and> fst (normalize_registro_times [Time 22 0, Time 2 0, Time 23 0])
     = [Time 22 0, Time 23 0, Time 2 0]"
proof -
  have "fst (normalize_registro_times [Time 22 0, Time 2 0, Time 23 0])
          = [Time 22 0, Time 23 0, Time 2 0]"
    by code_simp
  with normalize_registro_times_permutation[of "[Time 22 0, Time 2 0, Time 23 0]"]
  show ?thesis by simp
qed

section \<open>Auxiliary facts about the deduction engine\<close>

lemma minutos_entre_nonneg:
  "valid_time a \<Longrightarrow> 0 \<le> minutos_entre (Some a) (Some b)"
  using mins_less_1440[of a] mins_nonneg[of b] by (simp add: minutos_entre_def Let_def)

lemma minutos_entre_less_1440:
  "valid_time b \<Longrightarrow> minutos_entre (Some a) (Some b) < 1440"
  using mins_less_1440[of b] mins_nonneg[of a] by (simp add: minutos_entre_def Let_def)

lemma if_diff_nonneg: "(0::int) \<le> (if e \<le> s then 0 else e - s)"
  by simp

lemma overlap_min_nonneg: "0 \<le> overlap_min cm ent a1 a2 b1 b2"
  unfolding overlap_min_def Let_def by (rule if_diff_nonneg)

lemma clip_to_shift_ign_nonneg:
  "clip_to_shift cm ent ini fin e s = Some (a, b, ign) \<Longrightarrow> 0 \<le> ign"
  by (cases "window cm ent e s") (auto simp: clip_to_shift_def Let_def split: if_splits)

lemma clip_step_ignored_nonneg:
  assumes "\<forall>t. fst x = Some t \<longrightarrow> valid_time t" "0 \<le> snd st"
  shows "0 \<le> snd (clip_step cm ent sal x st)"
proof -
  obtain ini fin nota where x: "x = (ini, fin, nota)" by (cases x)
  obtain ivs ig where st: "st = (ivs, ig)" by (cases st)
  show ?thesis
  proof (cases ini)
    case None
    with x st assms show ?thesis by (simp add: clip_step_def)
  next
    case (Some i)
    with assms x have v: "valid_time i" by simp
    let ?f = "case fin of Some f \<Rightarrow> f | None \<Rightarrow> sal"
    show ?thesis
    proof (cases "clip_to_shift cm ent i ?f ent sal")
      case None
      with x st Some assms(2) minutos_entre_nonneg[OF v, of ?f] show ?thesis
        by (simp add: clip_step_def Let_def)
    next
      case (Some r)
      obtain a b ign where r: "r = (a, b, ign)" by (cases r)
      from Some r have "0 \<le> ign" by (auto dest: clip_to_shift_ign_nonneg)
      with x st \<open>ini = Some i\<close> Some r assms(2) show ?thesis
        by (simp add: clip_step_def Let_def)
    qed
  qed
qed

lemma fold_clip_ignored_nonneg:
  assumes "\<forall>x \<in> set nl. \<forall>t. fst x = Some t \<longrightarrow> valid_time t" "0 \<le> snd st"
  shows "0 \<le> snd (fold (clip_step cm ent sal) nl st)"
  using assms
proof (induction nl arbitrary: st)
  case Nil then show ?case by simp
next
  case (Cons x xs)
  have "0 \<le> snd (clip_step cm ent sal x st)"
    using Cons.prems by (intro clip_step_ignored_nonneg) simp_all
  with Cons show ?case by simp
qed


lemma merge_step_solape_nonneg:
  assumes "0 \<le> snd st"
  shows "0 \<le> snd (merge_step cm ent x st)"
proof -
  obtain ini fin where x: "x = (ini, fin)" by (cases x)
  obtain mg so where st: "st = (mg, so)" by (cases st)
  obtain li lf where l: "last mg = (li, lf)" by (cases "last mg")
  have "0 \<le> so + overlap_min cm ent li lf ini fin"
    using assms st overlap_min_nonneg[of cm ent li lf ini fin] by simp
  with assms x st l show ?thesis
    by (simp add: merge_step_def Let_def)
qed

lemma fold_merge_solape_nonneg:
  "0 \<le> snd st \<Longrightarrow> 0 \<le> snd (fold (merge_step cm ent) xs st)"
  by (induction xs arbitrary: st) (simp_all add: merge_step_solape_nonneg)

lemma fold_ov_nonneg:
  "0 \<le> acc \<Longrightarrow> 0 \<le> fold (\<lambda>(v_ini, v_fin) ov. ov + overlap_min cm ent ini fin v_ini v_fin) vs acc"
proof (induction vs arbitrary: acc)
  case Nil then show ?case by simp
next
  case (Cons v vs)
  obtain a b where v: "v = (a, b)" by (cases v)
  have "0 \<le> acc + overlap_min cm ent ini fin a b"
    using Cons.prems overlap_min_nonneg[of cm ent ini fin a b] by simp
  from Cons.IH[OF this] v show ?case by simp
qed

lemma descontar_step_nonneg:
  assumes "0 \<le> fst st" "0 \<le> snd st"
  shows "0 \<le> fst (descontar_step cm ent vs x st) \<and> 0 \<le> snd (descontar_step cm ent vs x st)"
proof -
  obtain ini fin where x: "x = (ini, fin)" by (cases x)
  obtain d oc where st: "st = (d, oc)" by (cases st)
  have "0 \<le> fold (\<lambda>(v_ini, v_fin) ov. ov + overlap_min cm ent ini fin v_ini v_fin) vs 0"
    by (rule fold_ov_nonneg) simp
  with assms x st show ?thesis by (simp add: descontar_step_def Let_def)
qed

lemma fold_descontar_nonneg:
  "0 \<le> fst st \<Longrightarrow> 0 \<le> snd st \<Longrightarrow>
   0 \<le> fst (fold (descontar_step cm ent vs) xs st) \<and> 0 \<le> snd (fold (descontar_step cm ent vs) xs st)"
  by (induction xs arbitrary: st) (simp_all add: descontar_step_nonneg)


lemma procesar_no_laborado_nonneg:
  assumes "\<forall>x \<in> set nl. \<forall>t. fst x = Some t \<longrightarrow> valid_time t"
      and "procesar_no_laborado cm ent sal vs nl = (ded, ov, sol, ign)"
  shows "0 \<le> ded \<and> 0 \<le> ov \<and> 0 \<le> sol \<and> 0 \<le> ign"
proof (cases "nl = []")
  case True
  with assms(2) show ?thesis by (simp add: procesar_no_laborado_def)
next
  case False
  obtain ivs ig where c: "fold (clip_step cm ent sal) nl ([], 0) = (ivs, ig)"
    by (cases "fold (clip_step cm ent sal) nl ([], 0)")
  obtain mg so where m: "fold (merge_step cm ent)
       (sort_key (\<lambda>x. minutos_entre (Some ent) (Some (fst x))) ivs) ([], 0) = (mg, so)"
    by (cases "fold (merge_step cm ent)
       (sort_key (\<lambda>x. minutos_entre (Some ent) (Some (fst x))) ivs) ([], 0)")
  obtain d oc where d: "fold (descontar_step cm ent vs) mg (0, 0) = (d, oc)"
    by (cases "fold (descontar_step cm ent vs) mg (0, 0)")
  from False assms(2) c m d have eq: "ded = d" "ov = oc" "sol = so" "ign = ig"
    by (simp_all add: procesar_no_laborado_def)
  have 1: "0 \<le> ig" using fold_clip_ignored_nonneg[OF assms(1), of "([], 0)" cm ent sal] c by simp
  have "0 \<le> snd (fold (merge_step cm ent)
       (sort_key (\<lambda>x. minutos_entre (Some ent) (Some (fst x))) ivs) ([], 0))"
    by (rule fold_merge_solape_nonneg) simp
  with m have 2: "0 \<le> so" by simp
  have 3: "0 \<le> d \<and> 0 \<le> oc" using fold_descontar_nonneg[of "(0, 0)" cm ent vs mg] d by simp
  from 1 2 3 eq show ?thesis by simp
qed

lemma div_mult_le_int: "0 < (s::int) \<Longrightarrow> w div s * s \<le> w"
  using pos_mod_sign[of s w] by (simp add: minus_div_mult_eq_mod[symmetric])

lemma div_mult_nonneg_int: "0 < (s::int) \<Longrightarrow> 0 \<le> w \<Longrightarrow> 0 \<le> w div s * s"
  by (simp add: pos_imp_zdiv_nonneg_iff)

lemma round_minutes_nonneg: "0 \<le> round_minutes v step mode"
proof (cases "step \<le> 1")
  case True then show ?thesis by (simp add: round_minutes_def)
next
  case False
  then have s: "0 < step" by simp
  have a: "0 \<le> (max 0 v + step - 1) div step * step"
    using s by (intro div_mult_nonneg_int) auto
  have b: "0 \<le> max 0 v div step * step"
    using s by (intro div_mult_nonneg_int) auto
  from a b s False show ?thesis by (simp add: round_minutes_def Let_def)
qed

lemma round_minutes_upper:
  assumes "1 < step" "0 \<le> v"
  shows "round_minutes v step mode \<le> (if mode = ''down'' then v else if v = 0 then 0 else v + step - 1)"
proof -
  have s: "0 < step" using assms by simp
  have mx: "max 0 v = v" using assms by simp
  have lo: "v div step * step \<le> v" using s by (rule div_mult_le_int)
  have m: "v - v div step * step = v mod step" by (simp add: minus_div_mult_eq_mod)
  have ml: "v mod step < step" using s by simp
  have up: "(v + step - 1) div step * step \<le> v + step - 1" using s by (rule div_mult_le_int)
  have z: "(step - 1) div step = 0" using assms by simp
  show ?thesis
  proof (cases "mode = ''up''")
    case True
    with assms up z show ?thesis by (simp add: round_minutes_def Let_def mx)
  next
    case nu: False
    show ?thesis
    proof (cases "mode = ''down''")
      case True
      with assms lo show ?thesis by (simp add: round_minutes_def Let_def mx)
    next
      case False
      define q where "q = v div step * step"
      have "round_minutes v step mode = (if q + step - v \<le> v - q then q + step else q)"
        using assms nu False unfolding round_minutes_def Let_def mx q_def by simp
      moreover have "q \<le> v" "v - q < step" using lo m ml by (simp_all add: q_def)
      moreover have "v = 0 \<longrightarrow> q = 0" by (simp add: q_def)
      ultimately show ?thesis using assms nu False by (auto split: if_splits)
    qed
  qed
qed

lemma valid_eventosD: "valid_eventos ev \<Longrightarrow> ev l = Some t \<Longrightarrow> valid_time t"
  by (cases l) (auto simp: valid_eventos_def)

lemma valid_no_laboradoD:
  "valid_no_laborado nl \<Longrightarrow> \<forall>x \<in> set nl. \<forall>t. fst x = Some t \<longrightarrow> valid_time t"
  by (auto simp: valid_no_laborado_def list_all_iff)

lemma add_minutes_ok:
  assumes "valid_time t" "dt_min \<le> m" "m < 1440"
  shows "add_minutes (Some t) m = Inr (Some (time_of_dt (mins t + m)))"
  using assms mins_less_1440[of t] mins_nonneg[of t]
  by (simp add: add_minutes_def Let_def dt_min_def dt_max_def)

lemma descuento_comida_spec:
  assumes "valid_eventos ev" "valid_time sal" "dt_min \<le> tope_descuento_comida_min cfg"
  shows "descuento_comida ev cfg sal
           = Inr (spec_meal_deduction ev cfg sal, map_option snd (spec_meal_window ev cfg sal))"
proof (cases "ev Salida_a_comer")
  case None
  then show ?thesis
    by (simp add: descuento_comida_def spec_meal_deduction_def spec_meal_window_def)
next
  case (Some mo)
  then have vmo: "valid_time mo" using assms(1) by (auto dest: valid_eventosD)
  have ve: "valid_time (spec_meal_end ev sal)"
    using assms(1,2) by (auto simp: spec_meal_end_def dest: valid_eventosD split: option.splits)
  let ?a = "minutos_entre (Some mo) (Some (spec_meal_end ev sal))"
  have a: "0 \<le> ?a" "?a < 1440"
    using minutos_entre_nonneg[OF vmo] minutos_entre_less_1440[OF ve] by simp_all
  have d: "dt_min \<le> min ?a (tope_descuento_comida_min cfg)" "min ?a (tope_descuento_comida_min cfg) < 1440"
    using a assms(3) by (simp_all add: dt_min_def)
  show ?thesis
    using Some add_minutes_ok[OF vmo d]
    by (simp add: descuento_comida_def spec_meal_deduction_def spec_meal_window_def
                  spec_meal_end_def Let_def)
qed

lemma descuento_comida_Inr_spec:
  assumes "descuento_comida ev cfg sal = Inr (c, fv)"
  shows "c = spec_meal_deduction ev cfg sal \<and> fv = map_option snd (spec_meal_window ev cfg sal)"
  using assms
  by (auto simp: descuento_comida_def spec_meal_deduction_def spec_meal_window_def
                 spec_meal_end_def Let_def add_minutes_def
           split: option.splits if_splits sum.splits)

lemma ventanas_descuento_spec:
  "ventanas_descuento ev (map_option snd (spec_meal_window ev cfg sal)) sal
     = (case spec_meal_window ev cfg sal of None \<Rightarrow> [] | Some w \<Rightarrow> [w])
       @ (case spec_dinner_window ev sal of None \<Rightarrow> [] | Some w \<Rightarrow> [w])"
  by (auto simp: ventanas_descuento_def spec_meal_window_def spec_dinner_window_def Let_def
           split: option.splits)

lemma calcular_trabajado_absent:
  "ev Entrada = None \<or> ev Salida = None \<Longrightarrow> calcular_trabajado ev cfg nl = Inr all_zero"
  by (auto simp: calcular_trabajado_def split: option.splits)

lemma calcular_trabajado_Inl:
  assumes "ev Entrada = Some ent" "ev Salida = Some sal" "descuento_comida ev cfg sal = Inl e"
  shows "calcular_trabajado ev cfg nl = Inl e"
  using assms by (simp add: calcular_trabajado_def)

lemma calcular_trabajado_Inr:
  assumes "ev Entrada = Some ent" "ev Salida = Some sal"
      and "descuento_comida ev cfg sal = Inr (c, fv)"
      and "procesar_no_laborado (time_less sal ent) ent sal (ventanas_descuento ev fv sal) nl
             = (d, oc, so, ig)"
  shows "calcular_trabajado ev cfg nl =
           Inr \<lparr>trabajado = max 0 (minutos_entre (Some ent) (Some sal) - c - descuento_cena ev sal - d),
                extra = (if redondeo_extra_step_min cfg > 1 \<and> redondeo_extra_modo cfg \<noteq> ''none''
                         then round_minutes
                                (max 0 (max 0 (minutos_entre (Some ent) (Some sal) - c - descuento_cena ev sal - d)
                                        - umbral_extra_min cfg))
                                (redondeo_extra_step_min cfg) (redondeo_extra_modo cfg)
                         else max 0 (max 0 (minutos_entre (Some ent) (Some sal) - c - descuento_cena ev sal - d)
                                     - umbral_extra_min cfg)),
                comida_ded = c, cena_ded = descuento_cena ev sal, extra_ded = d,
                nolab_overlap_cd = oc, nolab_solape_interno = so, ignored_outside_shift = ig\<rparr>"
  using assms by (simp add: calcular_trabajado_def Let_def)

lemma descuento_cena_nonneg: "valid_eventos ev \<Longrightarrow> 0 \<le> descuento_cena ev sal"
  by (auto simp: descuento_cena_def minutos_entre_nonneg dest: valid_eventosD split: option.splits)

lemma spec_meal_deduction_nonneg:
  assumes "valid_eventos ev" "0 \<le> tope_descuento_comida_min cfg"
  shows "0 \<le> spec_meal_deduction ev cfg sal"
  using assms
  by (auto simp: spec_meal_deduction_def Let_def minutos_entre_nonneg dest: valid_eventosD
           split: option.splits)

lemma calcular_trabajado_returns:
  assumes "valid_eventos ev" "dt_min \<le> tope_descuento_comida_min cfg"
  shows "\<exists>r. calcular_trabajado ev cfg nl = Inr r"
proof (cases "ev Entrada = None \<or> ev Salida = None")
  case True
  then show ?thesis using calcular_trabajado_absent by blast
next
  case False
  then obtain ent sal where es: "ev Entrada = Some ent" "ev Salida = Some sal" by auto
  have vs: "valid_time sal" using assms(1) es(2) by (rule valid_eventosD)
  note dc = descuento_comida_spec[OF assms(1) vs assms(2)]
  obtain d oc so ig where p:
    "procesar_no_laborado (time_less sal ent) ent sal
       (ventanas_descuento ev (map_option snd (spec_meal_window ev cfg sal)) sal) nl = (d, oc, so, ig)"
    using prod_cases4 by blast
  from calcular_trabajado_Inr[OF es dc p] show ?thesis by blast
qed

lemma procesar_no_laborado_eq:
  "procesar_no_laborado cm ent sal vs nl =
     (let (intervals, ignored) = fold (clip_step cm ent sal) nl ([], 0);
          sorted_intervals = sort_key (\<lambda>x. minutos_entre (Some ent) (Some (fst x))) intervals;
          (merged, solape) = fold (merge_step cm ent) sorted_intervals ([], 0);
          (ded, overlap_cd) = fold (descontar_step cm ent vs) merged (0, 0)
      in (ded, overlap_cd, solape, ignored))"
  by (cases "nl = []") (simp_all add: procesar_no_laborado_def)

lemma clip_step_None: "clip_step cm ent sal (None, fin, nota) st = st"
  by (cases st) (simp add: clip_step_def)

lemma clip_step_fin_None:
  "clip_step cm ent sal (Some ini, None, nota) st = clip_step cm ent sal (Some ini, Some sal, nota) st"
  by (cases st) (simp add: clip_step_def)

lemma procesar_skip:
  "procesar_no_laborado cm ent sal vs (xs @ (None, fin, nota) # ys)
     = procesar_no_laborado cm ent sal vs (xs @ ys)"
  by (simp add: procesar_no_laborado_eq clip_step_None)

lemma procesar_subst:
  "procesar_no_laborado cm ent sal vs (xs @ (Some ini, None, nota) # ys)
     = procesar_no_laborado cm ent sal vs (xs @ (Some ini, Some sal, nota) # ys)"
  by (simp add: procesar_no_laborado_eq clip_step_fin_None)

lemma calcular_trabajado_cong:
  assumes "\<And>ent sal vs. ev Entrada = Some ent \<Longrightarrow> ev Salida = Some sal \<Longrightarrow>
             procesar_no_laborado (time_less sal ent) ent sal vs nl
               = procesar_no_laborado (time_less sal ent) ent sal vs nl'"
  shows "calcular_trabajado ev cfg nl = calcular_trabajado ev cfg nl'"
proof (cases "ev Entrada = None \<or> ev Salida = None")
  case True
  then show ?thesis by (simp add: calcular_trabajado_absent)
next
  case False
  then obtain ent sal where es: "ev Entrada = Some ent" "ev Salida = Some sal" by auto
  show ?thesis
  proof (cases "descuento_comida ev cfg sal")
    case (Inl e)
    with es show ?thesis by (simp add: calcular_trabajado_Inl)
  next
    case (Inr p)
    obtain c fv where p: "p = (c, fv)" by (cases p)
    obtain d oc so ig where a:
      "procesar_no_laborado (time_less sal ent) ent sal (ventanas_descuento ev fv sal) nl = (d, oc, so, ig)"
      using prod_cases4 by blast
    with assms[OF es] have b:
      "procesar_no_laborado (time_less sal ent) ent sal (ventanas_descuento ev fv sal) nl' = (d, oc, so, ig)"
      by simp
    from calcular_trabajado_Inr[OF es Inr[unfolded p] a] calcular_trabajado_Inr[OF es Inr[unfolded p] b]
    show ?thesis by simp
  qed
qed

lemma isl_calcular_trabajado:
  "isl (calcular_trabajado ev cfg nl) \<longleftrightarrow> isl (calcular_trabajado ev cfg [])"
proof (cases "ev Entrada = None \<or> ev Salida = None")
  case True
  then show ?thesis by (simp add: calcular_trabajado_absent)
next
  case False
  then obtain ent sal where es: "ev Entrada = Some ent" "ev Salida = Some sal" by auto
  show ?thesis
  proof (cases "descuento_comida ev cfg sal")
    case (Inl e)
    with es show ?thesis by (simp add: calcular_trabajado_Inl)
  next
    case (Inr p)
    obtain c fv where p: "p = (c, fv)" by (cases p)
    obtain d oc so ig where a:
      "procesar_no_laborado (time_less sal ent) ent sal (ventanas_descuento ev fv sal) nl = (d, oc, so, ig)"
      using prod_cases4 by blast
    obtain d' oc' so' ig' where b:
      "procesar_no_laborado (time_less sal ent) ent sal (ventanas_descuento ev fv sal) [] = (d', oc', so', ig')"
      using prod_cases4 by blast
    from calcular_trabajado_Inr[OF es Inr[unfolded p] a] calcular_trabajado_Inr[OF es Inr[unfolded p] b]
    show ?thesis by simp
  qed
qed

lemma hm_inj:
  assumes "x2 < 60" "y2 < 60" "int x1 * 60 + int x2 = int y1 * 60 + int y2"
  shows "x1 = y1 \<and> x2 = y2"
proof -
  from assms(3) have "int (x1 * 60 + x2) = int (y1 * 60 + y2)" by simp
  then have e: "x1 * 60 + x2 = y1 * 60 + y2" by (simp only: of_nat_eq_iff)
  have "(x1 * 60 + x2) mod 60 = x2" "(y1 * 60 + y2) mod 60 = y2" using assms(1,2) by simp_all
  with e have m: "x2 = y2" by simp
  have "(x1 * 60 + x2) div 60 = x1" "(y1 * 60 + y2) div 60 = y1" using assms(1,2) by simp_all
  with e have "x1 = y1" by simp
  with m show ?thesis by simp
qed

lemma mins_inj:
  assumes "valid_time a" "valid_time b" "mins a = mins b"
  shows "a = b"
proof -
  obtain h m where a: "a = Time h m" by (cases a)
  obtain h' m' where b: "b = Time h' m'" by (cases b)
  from assms a b have "m < 60" "m' < 60" "int h * 60 + int m = int h' * 60 + int m'"
    by (simp_all add: valid_time_def mins_def)
  then have "h = h' \<and> m = m'" by (rule hm_inj)
  with a b show ?thesis by simp
qed

lemma minutos_entre_zero:
  assumes "valid_time a" "valid_time b" "minutos_entre (Some a) (Some b) \<le> 0"
  shows "b = a"
proof -
  have "mins a = mins b"
    using assms(3) mins_less_1440[OF assms(1)] mins_nonneg[of b]
    by (auto simp: minutos_entre_def Let_def split: if_splits)
  with assms(1,2) show ?thesis by (auto dest: mins_inj)
qed

lemma all_zero_only_zero_span:
  assumes "valid_eventos ev" "ev Entrada = Some ent" "ev Salida = Some sal"
      and "calcular_trabajado ev cfg nl = Inr all_zero"
  shows "sal = ent"
proof -
  from assms(2-4) obtain c fv where dc: "descuento_comida ev cfg sal = Inr (c, fv)"
    by (cases "descuento_comida ev cfg sal") (auto simp: calcular_trabajado_def)
  obtain d oc so ig where p:
    "procesar_no_laborado (time_less sal ent) ent sal (ventanas_descuento ev fv sal) nl = (d, oc, so, ig)"
    using prod_cases4 by blast
  define T where "T = minutos_entre (Some ent) (Some sal)"
  note r = trans[OF assms(4)[symmetric] calcular_trabajado_Inr[OF assms(2,3) dc p]]
  have c0: "c = 0"
    using arg_cong[OF r, of "map_sum id comida_ded"] by (simp add: all_zero_def)
  have ce0: "descuento_cena ev sal = 0"
    using arg_cong[OF r, of "map_sum id cena_ded"] by (simp add: all_zero_def)
  have d0: "d = 0"
    using arg_cong[OF r, of "map_sum id extra_ded"] by (simp add: all_zero_def)
  have "max 0 (T - c - descuento_cena ev sal - d) = 0"
    using arg_cong[OF r, of "map_sum id trabajado"] by (simp add: all_zero_def T_def)
  with c0 ce0 d0 have "minutos_entre (Some ent) (Some sal) \<le> 0" unfolding T_def by simp
  moreover have "valid_time ent" "valid_time sal" using assms(1-3) by (auto dest: valid_eventosD)
  ultimately show ?thesis by (intro minutos_entre_zero)
qed

lemma extra_le_trabajado:
  assumes "0 \<le> umbral_extra_min cfg"
      and "redondeo_extra_step_min cfg \<le> 1 \<or> redondeo_extra_modo cfg = ''none''
           \<or> redondeo_extra_modo cfg = ''down''
           \<or> redondeo_extra_step_min cfg \<le> umbral_extra_min cfg + 1"
      and "calcular_trabajado ev cfg nl = Inr r"
  shows "extra r \<le> trabajado r"
proof (cases "ev Entrada = None \<or> ev Salida = None")
  case True
  then have "calcular_trabajado ev cfg nl = Inr all_zero" by (rule calcular_trabajado_absent)
  with assms(3) have "r = all_zero" by simp
  then show ?thesis by (simp add: all_zero_def)
next
  case False
  then obtain ent sal where es: "ev Entrada = Some ent" "ev Salida = Some sal" by auto
  from assms(3) es obtain c fv where dc: "descuento_comida ev cfg sal = Inr (c, fv)"
    by (cases "descuento_comida ev cfg sal") (auto simp: calcular_trabajado_def)
  obtain d oc so ig where p:
    "procesar_no_laborado (time_less sal ent) ent sal (ventanas_descuento ev fv sal) nl = (d, oc, so, ig)"
    using prod_cases4 by blast
  define w where "w = max 0 (minutos_entre (Some ent) (Some sal) - c - descuento_cena ev sal - d)"
  define v where "v = max 0 (w - umbral_extra_min cfg)"
  have w0: "0 \<le> w" by (simp add: w_def)
  have v0: "0 \<le> v" by (simp add: v_def)
  have vw: "v \<le> w" using assms(1) w0 by (simp add: v_def)
  from calcular_trabajado_Inr[OF es dc p] assms(3)
  have r: "trabajado r = w"
          "extra r = (if redondeo_extra_step_min cfg > 1 \<and> redondeo_extra_modo cfg \<noteq> ''none''
                      then round_minutes v (redondeo_extra_step_min cfg) (redondeo_extra_modo cfg)
                      else v)"
    by (auto simp: w_def v_def)
  show ?thesis
  proof (cases "redondeo_extra_step_min cfg > 1 \<and> redondeo_extra_modo cfg \<noteq> ''none''")
    case False
    with r vw show ?thesis by simp
  next
    case True
    then have st: "1 < redondeo_extra_step_min cfg" by simp
    note ub = round_minutes_upper[OF st v0, of "redondeo_extra_modo cfg"]
    from assms(2) True consider (down) "redondeo_extra_modo cfg = ''down''"
      | (small) "redondeo_extra_modo cfg \<noteq> ''down''" "redondeo_extra_step_min cfg \<le> umbral_extra_min cfg + 1"
      by auto
    then show ?thesis
    proof cases
      case down
      with ub r True vw show ?thesis by simp
    next
      case small
      have "v = 0 \<or> v = w - umbral_extra_min cfg" by (auto simp: v_def max_def)
      with ub small r True w0 show ?thesis by (auto split: if_splits)
    qed
  qed
qed

section \<open>Properties of the deduction engine\<close>

text \<open>
  C2. With Entry and Exit present: without MealOut the meal deduction is 0; otherwise, with the
  effective end MealIn if present and Exit if not, and \<open>actual\<close> the minutes from MealOut to
  it, the deduction is \<open>min actual cap\<close> when \<open>actual\<close> is at most the ceiling and \<open>actual\<close>
  above it. The recorded meal window starts at MealOut and ends at MealOut plus the deducted
  minutes in the capped case, at the effective end in the full case; it is the first of the
  recorded windows, before the dinner window. The call returns for every cap that
  \<open>add_minutes\<close> can add (every cap from \<open>dt_min\<close> up, so every non-negative one).
\<close>

theorem meal_deduction_rule:
  assumes "ev Entrada = Some ent" "ev Salida = Some sal" "valid_eventos ev"
      and "dt_min \<le> tope_descuento_comida_min cfg"
  shows "(\<exists>r. calcular_trabajado ev cfg nl = Inr r \<and> comida_ded r = spec_meal_deduction ev cfg sal)
         \<and> descuento_comida ev cfg sal
             = Inr (spec_meal_deduction ev cfg sal, map_option snd (spec_meal_window ev cfg sal))
         \<and> ventanas_descuento ev (map_option snd (spec_meal_window ev cfg sal)) sal
             = (case spec_meal_window ev cfg sal of None \<Rightarrow> [] | Some w \<Rightarrow> [w])
               @ (case spec_dinner_window ev sal of None \<Rightarrow> [] | Some w \<Rightarrow> [w])"
proof -
  have vs: "valid_time sal" using assms(3,2) by (rule valid_eventosD)
  note dc = descuento_comida_spec[OF assms(3) vs assms(4)]
  obtain d oc so ig where p:
    "procesar_no_laborado (time_less sal ent) ent sal
       (ventanas_descuento ev (map_option snd (spec_meal_window ev cfg sal)) sal) nl = (d, oc, so, ig)"
    using prod_cases4 by blast
  from calcular_trabajado_Inr[OF assms(1,2) dc p]
  have "\<exists>r. calcular_trabajado ev cfg nl = Inr r \<and> comida_ded r = spec_meal_deduction ev cfg sal"
    by simp
  with dc ventanas_descuento_spec show ?thesis by simp
qed

theorem meal_deduction_rule_witness:
  "valid_eventos [Entrada \<mapsto> Time 22 0, Salida \<mapsto> Time 6 0,
                  Salida_a_comer \<mapsto> Time 23 45, Regreso_de_comer \<mapsto> Time 0 25]
   \<and> dt_min \<le> tope_descuento_comida_min default_cfg
   \<and> (\<exists>r. calcular_trabajado [Entrada \<mapsto> Time 22 0, Salida \<mapsto> Time 6 0,
                  Salida_a_comer \<mapsto> Time 23 45, Regreso_de_comer \<mapsto> Time 0 25] default_cfg [] = Inr r
          \<and> comida_ded r = 30)
   \<and> spec_meal_window [Entrada \<mapsto> Time 22 0, Salida \<mapsto> Time 6 0,
                  Salida_a_comer \<mapsto> Time 23 45, Regreso_de_comer \<mapsto> Time 0 25] default_cfg (Time 6 0)
       = Some (Time 23 45, Time 0 15)"
proof -
  let ?ev = "[Entrada \<mapsto> Time 22 0, Salida \<mapsto> Time 6 0,
              Salida_a_comer \<mapsto> Time 23 45, Regreso_de_comer \<mapsto> Time 0 25]"
  have e: "?ev Entrada = Some (Time 22 0)" "?ev Salida = Some (Time 6 0)" by simp_all
  have v: "valid_eventos ?ev" by (simp add: valid_eventos_def valid_time_def)
  have c: "dt_min \<le> tope_descuento_comida_min default_cfg" by (simp add: dt_min_def default_cfg_def)
  have d: "spec_meal_deduction ?ev default_cfg (Time 6 0) = 30" by code_simp
  have w: "spec_meal_window ?ev default_cfg (Time 6 0) = Some (Time 23 45, Time 0 15)" by code_simp
  from meal_deduction_rule[OF e v c, of "[]"] d w v c show ?thesis by simp
qed

text \<open>
  C3 (as the code behaves). Without Entry or without Exit the result is all zero. Exception
  data never makes the call raise: whether it raises does not depend on the exception list,
  and with times in range and a non-negative meal cap it returns for every list; an exception
  whose start is absent is skipped, and one whose end is absent is treated as ending at Exit.
  With Entry and Exit present the result is all zero only when Exit is the same clock time as
  Entry (a shift of zero span).
\<close>

theorem missing_bracket_and_exceptions:
  "(ev Entrada = None \<or> ev Salida = None \<longrightarrow> calcular_trabajado ev cfg nl = Inr all_zero)
   \<and> (isl (calcular_trabajado ev cfg nl) \<longleftrightarrow> isl (calcular_trabajado ev cfg []))
   \<and> (valid_eventos ev \<and> 0 \<le> tope_descuento_comida_min cfg
        \<longrightarrow> (\<exists>r. calcular_trabajado ev cfg nl = Inr r))
   \<and> calcular_trabajado ev cfg (xs @ (None, fin, nota) # ys) = calcular_trabajado ev cfg (xs @ ys)
   \<and> calcular_trabajado ev cfg (xs @ (Some ini, None, nota) # ys)
       = calcular_trabajado ev cfg (xs @ (Some ini, ev Salida, nota) # ys)
   \<and> (valid_eventos ev \<and> ev Entrada = Some ent \<and> ev Salida = Some sal
        \<and> calcular_trabajado ev cfg nl = Inr all_zero \<longrightarrow> sal = ent)"
proof -
  have a: "ev Entrada = None \<or> ev Salida = None \<longrightarrow> calcular_trabajado ev cfg nl = Inr all_zero"
    by (simp add: calcular_trabajado_absent)
  have b: "valid_eventos ev \<and> 0 \<le> tope_descuento_comida_min cfg
             \<longrightarrow> (\<exists>r. calcular_trabajado ev cfg nl = Inr r)"
    by (auto intro!: calcular_trabajado_returns simp: dt_min_def)
  have c: "calcular_trabajado ev cfg (xs @ (None, fin, nota) # ys) = calcular_trabajado ev cfg (xs @ ys)"
    by (rule calcular_trabajado_cong) (rule procesar_skip)
  have d: "calcular_trabajado ev cfg (xs @ (Some ini, None, nota) # ys)
             = calcular_trabajado ev cfg (xs @ (Some ini, ev Salida, nota) # ys)"
  proof (cases "ev Salida")
    case None
    then show ?thesis by (simp add: calcular_trabajado_absent)
  next
    case (Some s)
    show ?thesis unfolding Some
      by (rule calcular_trabajado_cong) (simp add: Some procesar_subst)
  qed
  have e: "valid_eventos ev \<and> ev Entrada = Some ent \<and> ev Salida = Some sal
             \<and> calcular_trabajado ev cfg nl = Inr all_zero \<longrightarrow> sal = ent"
    by (auto dest: all_zero_only_zero_span)
  from a b c d e isl_calcular_trabajado show ?thesis by blast
qed

theorem missing_bracket_and_exceptions_witness:
  "calcular_trabajado [Entrada \<mapsto> Time 9 0] default_cfg [(Some (Time 10 0), None, ''x'')] = Inr all_zero
   \<and> calcular_trabajado [Entrada \<mapsto> Time 9 0, Salida \<mapsto> Time 17 0] default_cfg
        ([] @ (None, Some (Time 11 0), ''a'') # [(Some (Time 16 0), None, ''b'')])
       = calcular_trabajado [Entrada \<mapsto> Time 9 0, Salida \<mapsto> Time 17 0] default_cfg
           ([] @ [(Some (Time 16 0), None, ''b'')])
   \<and> calcular_trabajado [Entrada \<mapsto> Time 9 0, Salida \<mapsto> Time 17 0] default_cfg
        [(Some (Time 16 0), None, ''b'')]
       = Inr \<lparr>trabajado = 420, extra = 0, comida_ded = 0, cena_ded = 0, extra_ded = 60,
              nolab_overlap_cd = 0, nolab_solape_interno = 0, ignored_outside_shift = 0\<rparr>"
proof -
  have n: "[Entrada \<mapsto> Time 9 0] Entrada = None \<or> [Entrada \<mapsto> Time 9 0] Salida = None" by simp
  have v: "calcular_trabajado [Entrada \<mapsto> Time 9 0, Salida \<mapsto> Time 17 0] default_cfg
             [(Some (Time 16 0), None, ''b'')]
           = Inr \<lparr>trabajado = 420, extra = 0, comida_ded = 0, cena_ded = 0, extra_ded = 60,
                  nolab_overlap_cd = 0, nolab_solape_interno = 0, ignored_outside_shift = 0\<rparr>"
    by code_simp
  from missing_bracket_and_exceptions[of "[Entrada \<mapsto> Time 9 0]" default_cfg
         "[(Some (Time 10 0), None, ''x'')]"] n
  have 1: "calcular_trabajado [Entrada \<mapsto> Time 9 0] default_cfg [(Some (Time 10 0), None, ''x'')]
             = Inr all_zero"
    by blast
  from missing_bracket_and_exceptions[of "[Entrada \<mapsto> Time 9 0, Salida \<mapsto> Time 17 0]" default_cfg _
         "[]" "Some (Time 11 0)" "''a''" "[(Some (Time 16 0), None, ''b'')]"]
  have 2: "calcular_trabajado [Entrada \<mapsto> Time 9 0, Salida \<mapsto> Time 17 0] default_cfg
             ([] @ (None, Some (Time 11 0), ''a'') # [(Some (Time 16 0), None, ''b'')])
           = calcular_trabajado [Entrada \<mapsto> Time 9 0, Salida \<mapsto> Time 17 0] default_cfg
               ([] @ [(Some (Time 16 0), None, ''b'')])"
    by blast
  from 1 2 v show ?thesis by simp
qed

text \<open>
  C3 as stated does not hold: with Entry and Exit both present and equal (09:00 and 09:00)
  the result is all zero.
\<close>

theorem all_zero_with_both_present:
  "[Entrada \<mapsto> Time 9 0, Salida \<mapsto> Time 9 0] Entrada \<noteq> None
   \<and> [Entrada \<mapsto> Time 9 0, Salida \<mapsto> Time 9 0] Salida \<noteq> None
   \<and> calcular_trabajado [Entrada \<mapsto> Time 9 0, Salida \<mapsto> Time 9 0] default_cfg [] = Inr all_zero"
  by code_simp

text \<open>
  C6 (as the code behaves). With a non-negative overtime threshold, the overtime is at most
  the worked minutes whenever the rounding cannot push it above them: rounding is off
  (step at most 1 or mode "none"), or the mode is "down", or the step is at most the
  threshold plus 1.
\<close>

theorem overtime_le_worked:
  assumes "valid_eventos ev" "dt_min \<le> tope_descuento_comida_min cfg"
      and "0 \<le> umbral_extra_min cfg"
      and "redondeo_extra_step_min cfg \<le> 1 \<or> redondeo_extra_modo cfg = ''none''
           \<or> redondeo_extra_modo cfg = ''down''
           \<or> redondeo_extra_step_min cfg \<le> umbral_extra_min cfg + 1"
  shows "\<exists>r. calcular_trabajado ev cfg nl = Inr r \<and> extra r \<le> trabajado r"
proof -
  from calcular_trabajado_returns[OF assms(1,2)] obtain r where
    r: "calcular_trabajado ev cfg nl = Inr r" by blast
  from extra_le_trabajado[OF assms(3,4) r] r show ?thesis by blast
qed

theorem overtime_le_worked_witness:
  "valid_eventos [Entrada \<mapsto> Time 8 0, Salida \<mapsto> Time 17 7]
   \<and> (\<exists>r. calcular_trabajado [Entrada \<mapsto> Time 8 0, Salida \<mapsto> Time 17 7]
             (default_cfg\<lparr>redondeo_extra_step_min := 15, redondeo_extra_modo := ''up''\<rparr>) [] = Inr r
          \<and> extra r \<le> trabajado r)
   \<and> calcular_trabajado [Entrada \<mapsto> Time 8 0, Salida \<mapsto> Time 17 7]
        (default_cfg\<lparr>redondeo_extra_step_min := 15, redondeo_extra_modo := ''up''\<rparr>) []
       = Inr \<lparr>trabajado = 547, extra = 75, comida_ded = 0, cena_ded = 0, extra_ded = 0,
              nolab_overlap_cd = 0, nolab_solape_interno = 0, ignored_outside_shift = 0\<rparr>"
proof -
  let ?ev = "[Entrada \<mapsto> Time 8 0, Salida \<mapsto> Time 17 7]"
  let ?cfg = "default_cfg\<lparr>redondeo_extra_step_min := 15, redondeo_extra_modo := ''up''\<rparr>"
  have v: "valid_eventos ?ev" by (simp add: valid_eventos_def valid_time_def)
  have c: "dt_min \<le> tope_descuento_comida_min ?cfg" by (simp add: dt_min_def default_cfg_def)
  have t: "0 \<le> umbral_extra_min ?cfg" by (simp add: default_cfg_def)
  have s: "redondeo_extra_step_min ?cfg \<le> 1 \<or> redondeo_extra_modo ?cfg = ''none''
           \<or> redondeo_extra_modo ?cfg = ''down''
           \<or> redondeo_extra_step_min ?cfg \<le> umbral_extra_min ?cfg + 1"
    by (simp add: default_cfg_def)
  have e: "calcular_trabajado ?ev ?cfg []
             = Inr \<lparr>trabajado = 547, extra = 75, comida_ded = 0, cena_ded = 0, extra_ded = 0,
                    nolab_overlap_cd = 0, nolab_solape_interno = 0, ignored_outside_shift = 0\<rparr>"
    by code_simp
  from overtime_le_worked[OF v c t s, of "[]"] v e show ?thesis by simp
qed

text \<open>
  C6 as stated does not hold for every configuration: with threshold 0, step 15 and mode
  "up", a shift from 09:00 to 09:10 has 10 worked minutes and 15 overtime minutes.
\<close>

theorem overtime_above_worked:
  "map_sum id trabajado
     (calcular_trabajado [Entrada \<mapsto> Time 9 0, Salida \<mapsto> Time 9 10]
        (default_cfg\<lparr>umbral_extra_min := 0, redondeo_extra_step_min := 15,
                      redondeo_extra_modo := ''up''\<rparr>) []) = Inr 10
   \<and> map_sum id extra
     (calcular_trabajado [Entrada \<mapsto> Time 9 0, Salida \<mapsto> Time 9 10]
        (default_cfg\<lparr>umbral_extra_min := 0, redondeo_extra_step_min := 15,
                      redondeo_extra_modo := ''up''\<rparr>) []) = Inr 15"
  by code_simp

text \<open>
  C8 (as the code behaves). With times in range and a non-negative meal cap, the call returns
  and every component of the result is non-negative: worked, overtime, the meal, dinner and
  no-labor deductions, and the three diagnostic counters.
\<close>

theorem result_nonneg:
  assumes "valid_eventos ev" "valid_no_laborado nl" "0 \<le> tope_descuento_comida_min cfg"
  shows "\<exists>r. calcular_trabajado ev cfg nl = Inr r
           \<and> 0 \<le> trabajado r \<and> 0 \<le> extra r \<and> 0 \<le> comida_ded r \<and> 0 \<le> cena_ded r
           \<and> 0 \<le> extra_ded r \<and> 0 \<le> nolab_overlap_cd r \<and> 0 \<le> nolab_solape_interno r
           \<and> 0 \<le> ignored_outside_shift r"
proof (cases "ev Entrada = None \<or> ev Salida = None")
  case True
  then have "calcular_trabajado ev cfg nl = Inr all_zero" by (rule calcular_trabajado_absent)
  then show ?thesis by (simp add: all_zero_def)
next
  case False
  then obtain ent sal where es: "ev Entrada = Some ent" "ev Salida = Some sal" by auto
  have vs: "valid_time sal" using assms(1) es(2) by (rule valid_eventosD)
  have dm: "dt_min \<le> tope_descuento_comida_min cfg" using assms(3) by (simp add: dt_min_def)
  note dc = descuento_comida_spec[OF assms(1) vs dm]
  obtain d oc so ig where p:
    "procesar_no_laborado (time_less sal ent) ent sal
       (ventanas_descuento ev (map_option snd (spec_meal_window ev cfg sal)) sal) nl = (d, oc, so, ig)"
    using prod_cases4 by blast
  note r = calcular_trabajado_Inr[OF es dc p]
  have nn: "0 \<le> d \<and> 0 \<le> oc \<and> 0 \<le> so \<and> 0 \<le> ig"
    using procesar_no_laborado_nonneg[OF valid_no_laboradoD[OF assms(2)] p] .
  have c: "0 \<le> spec_meal_deduction ev cfg sal"
    using assms(1,3) by (rule spec_meal_deduction_nonneg)
  have ce: "0 \<le> descuento_cena ev sal" using assms(1) by (rule descuento_cena_nonneg)
  show ?thesis
    unfolding r using nn c ce round_minutes_nonneg by simp
qed

theorem result_nonneg_witness:
  "valid_eventos [Entrada \<mapsto> Time 22 0, Salida \<mapsto> Time 6 0,
                  Salida_a_comer \<mapsto> Time 23 45, Regreso_de_comer \<mapsto> Time 0 25]
   \<and> valid_no_laborado [(Some (Time 23 50), Some (Time 0 10), ''x'')]
   \<and> calcular_trabajado [Entrada \<mapsto> Time 22 0, Salida \<mapsto> Time 6 0,
                  Salida_a_comer \<mapsto> Time 23 45, Regreso_de_comer \<mapsto> Time 0 25] default_cfg
        [(Some (Time 23 50), Some (Time 0 10), ''x'')]
       = Inr \<lparr>trabajado = 450, extra = 0, comida_ded = 30, cena_ded = 0, extra_ded = 0,
              nolab_overlap_cd = 20, nolab_solape_interno = 0, ignored_outside_shift = 0\<rparr>
   \<and> (\<exists>r. calcular_trabajado [Entrada \<mapsto> Time 22 0, Salida \<mapsto> Time 6 0,
                  Salida_a_comer \<mapsto> Time 23 45, Regreso_de_comer \<mapsto> Time 0 25] default_cfg
             [(Some (Time 23 50), Some (Time 0 10), ''x'')] = Inr r
          \<and> 0 \<le> trabajado r \<and> 0 \<le> extra r \<and> 0 \<le> comida_ded r \<and> 0 \<le> cena_ded r
          \<and> 0 \<le> extra_ded r \<and> 0 \<le> nolab_overlap_cd r \<and> 0 \<le> nolab_solape_interno r
          \<and> 0 \<le> ignored_outside_shift r)"
proof -
  let ?ev = "[Entrada \<mapsto> Time 22 0, Salida \<mapsto> Time 6 0,
              Salida_a_comer \<mapsto> Time 23 45, Regreso_de_comer \<mapsto> Time 0 25]"
  let ?nl = "[(Some (Time 23 50), Some (Time 0 10), ''x'')]"
  have v: "valid_eventos ?ev" by (simp add: valid_eventos_def valid_time_def)
  have n: "valid_no_laborado ?nl" by (simp add: valid_no_laborado_def valid_time_def)
  have c: "0 \<le> tope_descuento_comida_min default_cfg" by (simp add: default_cfg_def)
  have e: "calcular_trabajado ?ev default_cfg ?nl
             = Inr \<lparr>trabajado = 450, extra = 0, comida_ded = 30, cena_ded = 0, extra_ded = 0,
                    nolab_overlap_cd = 20, nolab_solape_interno = 0, ignored_outside_shift = 0\<rparr>"
    by code_simp
  from result_nonneg[OF v n c] v n e show ?thesis by blast
qed

text \<open>
  C8 as stated does not hold for every configuration: with a meal cap of -5 and a meal from
  12:00 to 12:30 the meal deduction is -5.
\<close>

theorem negative_meal_deduction:
  "map_sum id comida_ded
     (calcular_trabajado [Entrada \<mapsto> Time 9 0, Salida \<mapsto> Time 17 0,
                          Salida_a_comer \<mapsto> Time 12 0, Regreso_de_comer \<mapsto> Time 12 30]
        (default_cfg\<lparr>tope_descuento_comida_min := - 5\<rparr>) []) = Inr (- 5)"
  by code_simp

section \<open>Scenario B\<close>

text \<open>
  C7 (as the code computes it). For the punches 09:00, 12:00, 13:10, 17:00 under the default
  configuration, \<open>map_eventos\<close> followed by \<open>calcular_trabajado\<close> finds a meal of 70
  minutes, above the ceiling of 60, and deducts all 70; the span from 09:00 to 17:00 is 480
  minutes, so the worked minutes are 410 and the overtime is 0.
\<close>

theorem scenario_B_result:
  "minutos_entre (eventos (map_eventos [Time 9 0, Time 12 0, Time 13 10, Time 17 0]) Salida_a_comer)
                 (eventos (map_eventos [Time 9 0, Time 12 0, Time 13 10, Time 17 0]) Regreso_de_comer) = 70
   \<and> minutos_entre (eventos (map_eventos [Time 9 0, Time 12 0, Time 13 10, Time 17 0]) Entrada)
                   (eventos (map_eventos [Time 9 0, Time 12 0, Time 13 10, Time 17 0]) Salida) = 480
   \<and> calcular_trabajado (eventos (map_eventos [Time 9 0, Time 12 0, Time 13 10, Time 17 0])) default_cfg []
       = Inr \<lparr>trabajado = 410, extra = 0, comida_ded = 70, cena_ded = 0, extra_ded = 0,
              nolab_overlap_cd = 0, nolab_solape_interno = 0, ignored_outside_shift = 0\<rparr>"
  by code_simp

text \<open>
  C7 as stated (worked = 470) does not hold: the worked minutes of that run are not 470.
\<close>

theorem scenario_B_not_470:
  "map_sum id trabajado
     (calcular_trabajado (eventos (map_eventos [Time 9 0, Time 12 0, Time 13 10, Time 17 0])) default_cfg [])
   \<noteq> Inr 470"
  by code_simp

end
